theory Spec2Isabelle
  imports Main "HOL-Library.AList" "HOL-Library.Sublist"
begin

section \<open>The rename table\<close>

text \<open>
  The three scripts \<^verbatim>\<open>rename_images.py\<close>, \<^verbatim>\<open>rename_images_v2.py\<close> and
  \<^verbatim>\<open>rename_images_v3.py\<close> carry the same dictionary literal \<^verbatim>\<open>mapping\<close>. A Python
  dictionary iterates in insertion order, so the literal is an association list in the
  order of the source. File names are byte strings, as the file system stores them: a
  Korean syllable is the three bytes of its UTF-8 encoding, so equality and the substring
  test of the source are equality and the substring test on the bytes. Python reads a
  name that is not valid UTF-8 as a string with lone surrogates, which compares and
  renames like any other name but cannot be encoded as UTF-8 again.
\<close>

type_synonym filename = string
type_synonym contents = string

definition mapping :: "(filename \<times> filename) list" where
  "mapping =
    [([CHR 0xEA, CHR 0xB1, CHR 0xB4, CHR 0xED, CHR 0x9D, CHR 0xAC] @ ''.png'',
        ''member-geonhee.png''),
     ([CHR 0xEA, CHR 0xB2, CHR 0xBD, CHR 0xEC, CHR 0xA4, CHR 0x80] @ ''.jpeg'',
        ''member-kyungjun.jpeg''),
     ([CHR 0xEA, CHR 0xB3, CHR 0xA0, CHR 0xEC, CHR 0x96, CHR 0x91, CHR 0xEC, CHR 0x9D, CHR 0xB4]
        @ ''.jpg'',
        ''cat-mascot.jpg''),
     ([CHR 0xEC, CHR 0x95, CHR 0xA8, CHR 0xEB, CHR 0xB2, CHR 0x94] @ '' ''
        @ [CHR 0xEC, CHR 0x86, CHR 0x8C, CHR 0xEA, CHR 0xB0, CHR 0x9C] @ '' 2.png'',
        ''album-intro-2.png''),
     ([CHR 0xEC, CHR 0x95, CHR 0xA8, CHR 0xEB, CHR 0xB2, CHR 0x94] @ '' ''
        @ [CHR 0xEC, CHR 0x86, CHR 0x8C, CHR 0xEA, CHR 0xB0, CHR 0x9C] @ '' 3.png'',
        ''album-intro-3.png''),
     ([CHR 0xEC, CHR 0x95, CHR 0xA8, CHR 0xEB, CHR 0xB2, CHR 0x94] @ '' ''
        @ [CHR 0xED, CHR 0x91, CHR 0x9C, CHR 0xEC, CHR 0xA7, CHR 0x80] @ '' 1.png'',
        ''album-cover-1.png''),
     ([CHR 0xEC, CHR 0x9C, CHR 0xA4, CHR 0xED, CHR 0x83, CHR 0x9C] @ ''.png'',
        ''member-yuntae.png''),
     ([CHR 0xEC, CHR 0xA7, CHR 0x84, CHR 0xED, CHR 0x98, CHR 0xB8] @ ''.png'',
        ''member-jinho.png''),
     ([CHR 0xEC, CHR 0xB0, CHR 0xAC, CHR 0xED, CHR 0x9D, CHR 0xAC] @ ''.png'',
        ''member-chanhee.png''),
     ([CHR 0xED, CHR 0x98, CHR 0x84, CHR 0xEC, CHR 0x83, CHR 0x81, CHR 0xEA, CHR 0xB8, CHR 0x88]
        @ '' '' @ [CHR 0xEC, CHR 0x9C, CHR 0xA4, CHR 0xED, CHR 0x83, CHR 0x9C] @ ''.png'',
        ''wanted-yuntae.png'')]"

definition base_dir :: filename where
  "base_dir = ''images''"

text \<open>The source name of the third entry, \<^verbatim>\<open>goyangi.jpg\<close> in Hangul (cat).\<close>

definition goyangi_jpg :: filename where
  "goyangi_jpg =
     [CHR 0xEA, CHR 0xB3, CHR 0xA0, CHR 0xEC, CHR 0x96, CHR 0x91, CHR 0xEC, CHR 0x9D, CHR 0xB4]
       @ ''.jpg''"

text \<open>A name is ASCII-safe when each of its bytes is below 128.\<close>

definition ascii_safe :: "filename \<Rightarrow> bool" where
  "ascii_safe s = list_all (\<lambda>c. of_char c < (128::nat)) s"

text \<open>
  The destination names are slugs: lower-case letters, digits, hyphens and dots, so no
  path separator and nothing a shell or a URL would need quoted.
\<close>

definition slug :: "filename \<Rightarrow> bool" where
  "slug s = list_all (\<lambda>c. c \<in> set ''abcdefghijklmnopqrstuvwxyz0123456789-.'') s"

text \<open>
  Well-formed UTF-8, as the strict codec of Python accepts it: one byte below 0x80, or a
  lead byte with one, two or three continuation bytes, without overlong forms, surrogates
  or code points past U+10FFFF.
\<close>

definition byte_in :: "nat \<Rightarrow> nat \<Rightarrow> char \<Rightarrow> bool" where
  "byte_in lo hi c = (lo \<le> of_char c \<and> of_char c \<le> (hi::nat))"

definition cont :: "char \<Rightarrow> bool" where
  "cont c = byte_in 0x80 0xBF c"

definition lead2 :: "char \<Rightarrow> bool" where
  "lead2 a = byte_in 0xC2 0xDF a"

definition lead3 :: "char \<Rightarrow> char \<Rightarrow> bool" where
  "lead3 a b =
     (byte_in 0xE0 0xE0 a \<and> byte_in 0xA0 0xBF b \<or>
      byte_in 0xE1 0xEC a \<and> cont b \<or>
      byte_in 0xED 0xED a \<and> byte_in 0x80 0x9F b \<or>
      byte_in 0xEE 0xEF a \<and> cont b)"

definition lead4 :: "char \<Rightarrow> char \<Rightarrow> bool" where
  "lead4 a b =
     (byte_in 0xF0 0xF0 a \<and> byte_in 0x90 0xBF b \<or>
      byte_in 0xF1 0xF3 a \<and> cont b \<or>
      byte_in 0xF4 0xF4 a \<and> byte_in 0x80 0x8F b)"

fun utf8_valid :: "string \<Rightarrow> bool" where
  "utf8_valid [] = True"
| "utf8_valid (a # cs) =
     (if byte_in 0x00 0x7F a then utf8_valid cs
      else (case cs of
              [] \<Rightarrow> False
            | b # cs1 \<Rightarrow>
                if lead2 a \<and> cont b then utf8_valid cs1
                else (case cs1 of
                        [] \<Rightarrow> False
                      | c # cs2 \<Rightarrow>
                          if lead3 a b \<and> cont c then utf8_valid cs2
                          else (case cs2 of
                                  [] \<Rightarrow> False
                                | d # cs3 \<Rightarrow>
                                    lead4 a b \<and> cont c \<and> cont d \<and> utf8_valid cs3))))"

text \<open>
  What the loops rely on in a table: no source name twice, no destination name twice, and
  no destination name that is also a source name.
\<close>

definition wf_table :: "(filename \<times> filename) list \<Rightarrow> bool" where
  "wf_table tbl =
     (distinct (map fst tbl) \<and> distinct (map snd tbl) \<and>
      set (map fst tbl) \<inter> set (map snd tbl) = {})"

section \<open>The file system calls\<close>

text \<open>
  The base directory \<^verbatim>\<open>images\<close> is \<open>None\<close> when it is absent (or cannot be entered),
  and otherwise an association list of its entries, each name with the contents stored
  under it; the name looked up is the first binding, as \<open>map_of\<close> finds it, and
  \<^verbatim>\<open>os.listdir\<close> reports each name once, in the order of the list.
  \<^verbatim>\<open>os.path.exists\<close> is false for every name when the directory is absent.

  \<^verbatim>\<open>os.rename\<close> is the platform's: it raises \<^verbatim>\<open>FileNotFoundError\<close> for a missing
  source, and for an existing one the platform may refuse (permission denied, a locked
  file, an existing destination on Windows). The refusals are the parameter \<open>R\<close>: given
  the directory and the two names it yields the text of the error, or \<open>None\<close> when
  the platform performs the rename, which then moves the contents to the destination
  name, replacing what was stored there.
\<close>

type_synonym directory = "(filename \<times> contents) list"

datatype pyerror = FileNotFoundError filename | OSError string | UnicodeEncodeError

type_synonym os = "directory \<Rightarrow> filename \<Rightarrow> filename \<Rightarrow> string option"

fun lookup :: "directory option \<Rightarrow> filename \<Rightarrow> contents option" where
  "lookup None f = None"
| "lookup (Some d) f = map_of d f"

definition os_path_exists :: "directory option \<Rightarrow> filename \<Rightarrow> bool" where
  "os_path_exists fs f = (lookup fs f \<noteq> None)"

fun os_listdir :: "directory option \<Rightarrow> pyerror + filename list" where
  "os_listdir None = Inl (FileNotFoundError base_dir)"
| "os_listdir (Some d) = Inr (remdups (map fst d))"

fun os_rename ::
  "os \<Rightarrow> directory option \<Rightarrow> filename \<Rightarrow> filename \<Rightarrow> pyerror + directory option" where
  "os_rename R None src dst = Inl (FileNotFoundError src)"
| "os_rename R (Some d) src dst =
     (case map_of d src of
        None \<Rightarrow> Inl (FileNotFoundError src)
      | Some c \<Rightarrow>
          (case R d src dst of
             Some msg \<Rightarrow> Inl (OSError msg)
           | None \<Rightarrow> Inr (Some (AList.update dst c (AList.delete src d)))))"

section \<open>Output and program state\<close>

text \<open>
  One constructor per format string of the sources:
  \<^verbatim>\<open>Files in images: ...\<close> (v2), \<^verbatim>\<open>Files found: ...\<close> (v3),
  \<^verbatim>\<open>Renamed: old -> new\<close>, \<^verbatim>\<open>Error renaming old: e\<close>,
  \<^verbatim>\<open>File not found: old\<close> (v1), \<^verbatim>\<open>Skipped: name\<close> (v3),
  \<^verbatim>\<open>Global error: e\<close> (v3) and \<^verbatim>\<open>Done\<close> (v3).
\<close>

datatype line =
    FilesIn "filename list"
  | FilesFound "filename list"
  | Renamed filename filename
  | ErrorRenaming filename pyerror
  | FileNotFound filename
  | Skipped filename
  | GlobalError pyerror
  | Done

fun is_renamed :: "line \<Rightarrow> bool" where
  "is_renamed (Renamed a b) = True"
| "is_renamed l = False"


fun is_not_found :: "line \<Rightarrow> bool" where
  "is_not_found (FileNotFound a) = True"
| "is_not_found l = False"

fun is_skipped :: "line \<Rightarrow> bool" where
  "is_skipped (Skipped a) = True"
| "is_skipped l = False"


fun line_file :: "line \<Rightarrow> filename option" where
  "line_file (Renamed a b) = Some a"
| "line_file (ErrorRenaming a e) = Some a"
| "line_file (FileNotFound a) = Some a"
| "line_file (Skipped a) = Some a"
| "line_file l = None"

text \<open>
  The log of v3 is opened with \<^verbatim>\<open>encoding="utf-8"\<close>, so writing a line raises
  \<^verbatim>\<open>UnicodeEncodeError\<close> when a file name formatted into it is not valid UTF-8. A
  list of names and an exception are formatted through \<^verbatim>\<open>repr\<close>, which escapes what
  cannot be encoded, so the listing line and the text of an error can always be written.
\<close>

fun encodable :: "line \<Rightarrow> bool" where
  "encodable (Renamed a b) = (utf8_valid a \<and> utf8_valid b)"
| "encodable (ErrorRenaming a e) = utf8_valid a"
| "encodable (FileNotFound a) = utf8_valid a"
| "encodable (Skipped a) = utf8_valid a"
| "encodable l = True"

text \<open>
  The state a script works on: the base directory, what was printed, what was written to
  \<^verbatim>\<open>rename_log.txt\<close> (v3), and the module's global \<^verbatim>\<open>mapping\<close> (empty before the
  assignment of the literal).
\<close>

record state =
  images :: "directory option"
  console :: "line list"
  logfile :: "line list"
  table :: "(filename \<times> filename) list"

datatype exit_status = Exit0 | Traceback pyerror

definition start :: "directory option \<Rightarrow> state" where
  "start fs = \<lparr>images = fs, console = [], logfile = [], table = []\<rparr>"

definition print :: "line \<Rightarrow> state \<Rightarrow> state" where
  "print l st = st\<lparr>console := console st @ [l]\<rparr>"

text \<open>
  A statement that may raise: \<open>Inr\<close> the state when it completes, \<open>Inl\<close> the
  exception together with the state at the moment it is raised.
\<close>

type_synonym outcome = "(pyerror \<times> state) + state"

fun state_of :: "outcome \<Rightarrow> state" where
  "state_of (Inl (e, st)) = st"
| "state_of (Inr st) = st"

definition log_write :: "line \<Rightarrow> state \<Rightarrow> outcome" where
  "log_write l st =
     (if encodable l then Inr (st\<lparr>logfile := logfile st @ [l]\<rparr>)
      else Inl (UnicodeEncodeError, st))"

section \<open>rename\_images.py\<close>

text \<open>
  One pass over the items of the table: probe the source name, rename it when it is
  there, and print one line per entry.
\<close>

fun v1_body :: "os \<Rightarrow> filename \<times> filename \<Rightarrow> state \<Rightarrow> state" where
  "v1_body R (old_name, new_name) st =
     (if os_path_exists (images st) old_name then
        (case os_rename R (images st) old_name new_name of
           Inr fs' \<Rightarrow> print (Renamed old_name new_name) (st\<lparr>images := fs'\<rparr>)
         | Inl e \<Rightarrow> print (ErrorRenaming old_name e) st)
      else print (FileNotFound old_name) st)"

definition v1 :: "os \<Rightarrow> directory option \<Rightarrow> exit_status \<times> state" where
  "v1 R fs =
     (let st = (start fs)\<lparr>table := mapping\<rparr>
      in (Exit0, fold (v1_body R) (table st) st))"

section \<open>rename\_images\_v2.py\<close>

text \<open>
  The listing comes first, outside any \<^verbatim>\<open>try\<close>: when it raises, the script ends
  there with a traceback, before the first \<^verbatim>\<open>print\<close> and before the table is
  assigned. The \<^verbatim>\<open>else\<close> branch of the loop walks the table and tests
  \<^verbatim>\<open>k in filename\<close>; the body of the test is \<^verbatim>\<open>pass\<close>.
\<close>

definition loose_match :: "filename \<Rightarrow> state \<Rightarrow> state" where
  "loose_match filename st =
     fold (\<lambda>(k, v) s. if sublist k filename then s else s) (table st) st"

definition v2_body :: "os \<Rightarrow> filename \<Rightarrow> state \<Rightarrow> state" where
  "v2_body R filename st =
     (case map_of (table st) filename of
        Some new_name \<Rightarrow>
          (case os_rename R (images st) filename new_name of
             Inr fs' \<Rightarrow> print (Renamed filename new_name) (st\<lparr>images := fs'\<rparr>)
           | Inl e \<Rightarrow> print (ErrorRenaming filename e) st)
      | None \<Rightarrow> loose_match filename st)"

definition v2 :: "os \<Rightarrow> directory option \<Rightarrow> exit_status \<times> state" where
  "v2 R fs =
     (case os_listdir fs of
        Inl e \<Rightarrow> (Traceback e, start fs)
      | Inr files \<Rightarrow>
          (let st = (print (FilesIn files) (start fs))\<lparr>table := mapping\<rparr>
           in (Exit0, fold (v2_body R) files st)))"

section \<open>rename\_images\_v3.py\<close>

text \<open>
  The log file is opened for writing, so it starts empty. Each rename stands in a
  \<^verbatim>\<open>try\<close> of its own together with the write of its \<^verbatim>\<open>Renamed\<close> line; the
  handler writes the \<^verbatim>\<open>Error renaming\<close> line. The listing, the write of the listing
  line and the whole loop stand in the outer \<^verbatim>\<open>try\<close>: whatever is raised there and
  not caught by the inner handler (a failed listing, a failed write of a
  \<^verbatim>\<open>Skipped\<close> line, a failed write inside the inner handler) ends the loop, and the
  outer handler writes \<^verbatim>\<open>Global error\<close>. \<^verbatim>\<open>Done\<close> is printed last; an
  exception of the outer handler itself would leave the script with a traceback.
\<close>

definition v3_try :: "os \<Rightarrow> filename \<Rightarrow> filename \<Rightarrow> state \<Rightarrow> outcome" where
  "v3_try R filename new_name st =
     (case os_rename R (images st) filename new_name of
        Inl e \<Rightarrow> Inl (e, st)
      | Inr fs' \<Rightarrow> log_write (Renamed filename new_name) (st\<lparr>images := fs'\<rparr>))"

definition v3_body :: "os \<Rightarrow> filename \<Rightarrow> state \<Rightarrow> outcome" where
  "v3_body R filename st =
     (case map_of (table st) filename of
        Some new_name \<Rightarrow>
          (case v3_try R filename new_name st of
             Inr st' \<Rightarrow> Inr st'
           | Inl (e, st') \<Rightarrow> log_write (ErrorRenaming filename e) st')
      | None \<Rightarrow> log_write (Skipped filename) st)"

fun v3_loop :: "os \<Rightarrow> filename list \<Rightarrow> state \<Rightarrow> outcome" where
  "v3_loop R [] st = Inr st"
| "v3_loop R (filename # files) st =
     (case v3_body R filename st of
        Inl x \<Rightarrow> Inl x
      | Inr st' \<Rightarrow> v3_loop R files st')"

definition v3_outer :: "os \<Rightarrow> state \<Rightarrow> outcome" where
  "v3_outer R st =
     (case os_listdir (images st) of
        Inl e \<Rightarrow> Inl (e, st)
      | Inr files \<Rightarrow>
          (case log_write (FilesFound files) st of
             Inl x \<Rightarrow> Inl x
           | Inr st' \<Rightarrow> v3_loop R files st'))"

definition v3 :: "os \<Rightarrow> directory option \<Rightarrow> exit_status \<times> state" where
  "v3 R fs =
     (let st = (start fs)\<lparr>table := mapping\<rparr>
      in case (case v3_outer R st of
                 Inr st' \<Rightarrow> Inr st'
               | Inl (e, st') \<Rightarrow> log_write (GlobalError e) st') of
           Inr st'' \<Rightarrow> (Exit0, print Done st'')
         | Inl (e, st'') \<Rightarrow> (Traceback e, st''))"

section \<open>Reading a run\<close>

definition status :: "exit_status \<times> state \<Rightarrow> exit_status" where
  "status r = fst r"

definition final :: "exit_status \<times> state \<Rightarrow> state" where
  "final r = snd r"

text \<open>The base directory after a run, as the map from names to contents.\<close>

definition dir_after :: "exit_status \<times> state \<Rightarrow> filename \<Rightarrow> contents option" where
  "dir_after r = lookup (images (snd r))"


definition rename_refused ::
  "os \<Rightarrow> directory option \<Rightarrow> filename \<Rightarrow> filename \<Rightarrow> contents \<Rightarrow>
   (filename \<Rightarrow> contents option) \<Rightarrow> line list \<Rightarrow> bool" where
  "rename_refused R fs a b c after out =
     ((\<exists>d msg. map_of d a = Some c \<and> map_of d b = lookup fs b \<and> R d a b = Some msg \<and>
         ErrorRenaming a (OSError msg) \<in> set out) \<and>
      after a = Some c \<and> after b = lookup fs b)"

text \<open>
  Two platforms to run the scripts on: one that performs every rename (POSIX, which
  replaces an existing destination), and one that refuses every rename (a directory
  without write permission).
\<close>

definition os_posix :: os where
  "os_posix d src dst = None"

definition os_denied :: os where
  "os_denied d src dst = Some ''[Errno 13] Permission denied''"

text \<open>The base directory that holds the cat picture and nothing else.\<close>

definition cat_only :: "contents \<Rightarrow> directory option" where
  "cat_only c = Some [(goyangi_jpg, c)]"

text \<open>The same directory once the picture carries its new name.\<close>

definition cat_renamed :: "contents \<Rightarrow> directory option" where
  "cat_renamed c = Some [(''cat-mascot.jpg'', c)]"

text \<open>A directory where the destination name of the picture is already taken.\<close>

definition cat_twice :: "directory option" where
  "cat_twice = Some [(goyangi_jpg, ''new''), (''cat-mascot.jpg'', ''old'')]"


text \<open>
  A directory that lists, before the picture, a file whose name is the byte 0xFF followed
  by \<^verbatim>\<open>.png\<close>: not valid UTF-8.
\<close>

definition bad_png :: filename where
  "bad_png = CHR 0xFF # ''.png''"


section \<open>The table\<close>

lemma length_mapping: "length mapping = 10"
  by (simp add: mapping_def)

lemma wf_table_mapping: "wf_table mapping"
  by (simp add: wf_table_def mapping_def)

lemma mapping_utf8_all: "list_all (\<lambda>e. utf8_valid (fst e) \<and> utf8_valid (snd e)) mapping"
  by (simp add: mapping_def byte_in_def cont_def lead2_def lead3_def lead4_def)

lemma bad_png_invalid: "\<not> utf8_valid bad_png"
  by (simp add: bad_png_def byte_in_def cont_def lead2_def lead3_def lead4_def)

lemma wf_table_map_of:
  "wf_table tbl \<Longrightarrow> (a, b) \<in> set tbl \<Longrightarrow> map_of tbl a = Some b"
  by (simp add: wf_table_def)

lemma wf_table_value_not_key:
  assumes "wf_table tbl" "map_of tbl f = Some x"
  shows "map_of tbl x = None"
proof -
  from assms(2) have "(f, x) \<in> set tbl" by (rule map_of_SomeD)
  then have "x \<in> snd ` set tbl" by force
  with assms(1) have "x \<notin> fst ` set tbl" by (auto simp: wf_table_def)
  then show ?thesis by (simp add: map_of_eq_None_iff)
qed

lemma wf_table_source_unique:
  assumes "wf_table tbl" "map_of tbl f = Some b" "(a, b) \<in> set tbl"
  shows "f = a"
proof -
  from assms(2) have "(f, b) \<in> set tbl" by (rule map_of_SomeD)
  moreover from assms(1) have "inj_on snd (set tbl)"
    by (simp add: wf_table_def distinct_map)
  ultimately have "(f, b) = (a, b)"
    using assms(3) by (intro inj_onD [of snd "set tbl"]) simp_all
  then show ?thesis by simp
qed

lemma wf_table_split:
  assumes "wf_table tbl" "(a, b) \<in> set tbl"
  obtains pre post where "tbl = pre @ (a, b) # post"
    "a \<notin> fst ` set pre" "a \<notin> snd ` set pre" "a \<notin> fst ` set post" "a \<notin> snd ` set post"
    "b \<notin> fst ` set pre" "b \<notin> snd ` set pre" "b \<notin> fst ` set post" "b \<notin> snd ` set post"
    "a \<noteq> b"
proof -
  from assms(2) obtain pre post where split: "tbl = pre @ (a, b) # post"
    by (auto simp: in_set_conv_decomp)
  from assms(1) have d1: "distinct (map fst tbl)" and d2: "distinct (map snd tbl)"
    and d3: "set (map fst tbl) \<inter> set (map snd tbl) = {}"
    by (simp_all add: wf_table_def)
  from d1 have "a \<notin> fst ` set pre" "a \<notin> fst ` set post"
    by (auto simp: split)
  moreover from d2 have "b \<notin> snd ` set pre" "b \<notin> snd ` set post"
    by (auto simp: split)
  moreover from d3 have "a \<notin> snd ` set pre" "a \<notin> snd ` set post"
    "b \<notin> fst ` set pre" "b \<notin> fst ` set post" "a \<noteq> b"
    by (auto simp: split)
  ultimately show ?thesis using split that by blast
qed

lemma mapping_utf8:
  assumes "(a, b) \<in> set mapping"
  shows "utf8_valid a" and "utf8_valid b"
  using mapping_utf8_all assms by (auto simp: list_all_iff)

section \<open>State updates and the rename call\<close>

lemma print_simps [simp]:
  "images (print l st) = images st"
  "table (print l st) = table st"
  "logfile (print l st) = logfile st"
  "console (print l st) = console st @ [l]"
  by (simp_all add: print_def)

lemma log_write_state [simp]:
  "images (state_of (log_write l st)) = images st"
  "table (state_of (log_write l st)) = table st"
  "console (state_of (log_write l st)) = console st"
  "logfile (state_of (log_write l st)) = (if encodable l then logfile st @ [l] else logfile st)"
  by (simp_all add: log_write_def)

lemma log_write_Inr:
  "encodable l \<Longrightarrow> log_write l st = Inr (st\<lparr>logfile := logfile st @ [l]\<rparr>)"
  by (simp add: log_write_def)

lemma log_write_Inl:
  "\<not> encodable l \<Longrightarrow> log_write l st = Inl (UnicodeEncodeError, st)"
  by (simp add: log_write_def)

lemma log_write_raises: "log_write l st = Inl (e, s) \<Longrightarrow> e = UnicodeEncodeError \<and> s = st"
  by (simp add: log_write_def split: if_splits)

lemma os_rename_Inr:
  assumes "os_rename R fs s t = Inr fs'"
  shows "\<exists>c. lookup fs s = Some c \<and>
           lookup fs' = (\<lambda>x. if x = t then Some c else if x = s then None else lookup fs x)"
proof (cases fs)
  case None
  with assms show ?thesis by simp
next
  case (Some d)
  with assms obtain c where c: "map_of d s = Some c"
    and fs': "fs' = Some (AList.update t c (AList.delete s d))"
    by (auto split: option.splits)
  have "lookup fs' = (\<lambda>x. if x = t then Some c else if x = s then None else lookup fs x)"
    by (rule ext) (simp add: fs' Some update_conv' delete_conv')
  moreover have "lookup fs s = Some c"
    by (simp add: Some c)
  ultimately show ?thesis by blast
qed

lemma os_rename_other:
  "os_rename R fs s t = Inr fs' \<Longrightarrow> x \<noteq> s \<Longrightarrow> x \<noteq> t \<Longrightarrow> lookup fs' x = lookup fs x"
  by (drule os_rename_Inr) auto



lemma os_rename_missing:
  "lookup fs s = None \<Longrightarrow> os_rename R fs s t = Inl (FileNotFoundError s)"
  by (cases fs) simp_all



section \<open>The loop of rename\_images.py\<close>

lemma v1_body_table [simp]: "table (v1_body R e st) = table st"
  by (cases e) (simp split: sum.splits)

lemma v1_body_logfile [simp]: "logfile (v1_body R e st) = logfile st"
  by (cases e) (simp split: sum.splits)

lemma v1_body_console: "\<exists>l. console (v1_body R e st) = console st @ [l] \<and> line_file l = Some (fst e)"
  by (cases e) (simp split: sum.splits)

lemma v1_body_frame:
  "x \<noteq> fst e \<Longrightarrow> x \<noteq> snd e \<Longrightarrow> lookup (images (v1_body R e st)) x = lookup (images st) x"
  by (cases e) (auto split: sum.splits dest: os_rename_other)

lemma v1_loop_table [simp]: "table (fold (v1_body R) es st) = table st"
  by (induction es arbitrary: st) simp_all

lemma v1_loop_logfile [simp]: "logfile (fold (v1_body R) es st) = logfile st"
  by (induction es arbitrary: st) simp_all

lemma v1_loop_console:
  "\<exists>ls. console (fold (v1_body R) es st) = console st @ ls \<and> map line_file ls = map (Some \<circ> fst) es"
proof (induction es arbitrary: st)
  case Nil
  show ?case by simp
next
  case (Cons e es)
  obtain l where l: "console (v1_body R e st) = console st @ [l]" "line_file l = Some (fst e)"
    using v1_body_console by blast
  obtain ls where ls: "console (fold (v1_body R) es (v1_body R e st)) = console (v1_body R e st) @ ls"
     "map line_file ls = map (Some \<circ> fst) es"
    using Cons.IH by blast
  have "console (fold (v1_body R) (e # es) st) = console st @ (l # ls)"
    using l ls by simp
  moreover have "map line_file (l # ls) = map (Some \<circ> fst) (e # es)"
    using l ls by simp
  ultimately show ?case by blast
qed

lemma v1_loop_mono:
  "l \<in> set (console st) \<Longrightarrow> l \<in> set (console (fold (v1_body R) es st))"
  using v1_loop_console [of R es st] by auto

lemma v1_loop_frame:
  "x \<notin> fst ` set es \<Longrightarrow> x \<notin> snd ` set es \<Longrightarrow>
   lookup (images (fold (v1_body R) es st)) x = lookup (images st) x"
proof (induction es arbitrary: st)
  case Nil
  show ?case by simp
next
  case (Cons e es)
  then have "x \<noteq> fst e" "x \<noteq> snd e" "x \<notin> fst ` set es" "x \<notin> snd ` set es"
    by auto
  then show ?case
    using Cons.IH [of "v1_body R e st"] by (simp add: v1_body_frame)
qed

lemma v1_loop_absent:
  "\<forall>e \<in> set es. lookup (images st) (fst e) = None \<Longrightarrow>
   fold (v1_body R) es st = st\<lparr>console := console st @ map (FileNotFound \<circ> fst) es\<rparr>"
proof (induction es arbitrary: st)
  case Nil
  show ?case by simp
next
  case (Cons e es)
  obtain a b where e: "e = (a, b)" by (cases e)
  from Cons.prems have a: "lookup (images st) a = None" by (simp add: e)
  have step: "v1_body R e st = print (FileNotFound a) st"
    by (simp add: e a os_path_exists_def)
  have "\<forall>e \<in> set es. lookup (images (print (FileNotFound a) st)) (fst e) = None"
    using Cons.prems by simp
  moreover have "fst e = a" by (simp add: e)
  ultimately show ?case
    using Cons.IH [of "print (FileNotFound a) st"]
    by (simp add: step print_def del: v1_body.simps)
qed


lemma v1_entry_absent:
  assumes wf: "wf_table tbl" and mem: "(a, b) \<in> set tbl"
    and absent: "lookup (images st) a = None"
  shows "lookup (images (fold (v1_body R) tbl st)) a = None"
    and "lookup (images (fold (v1_body R) tbl st)) b = lookup (images st) b"
    and "FileNotFound a \<in> set (console (fold (v1_body R) tbl st))"
proof -
  from wf mem obtain pre post where split: "tbl = pre @ (a, b) # post"
    and pre: "a \<notin> fst ` set pre" "a \<notin> snd ` set pre" "b \<notin> fst ` set pre" "b \<notin> snd ` set pre"
    and post: "a \<notin> fst ` set post" "a \<notin> snd ` set post" "b \<notin> fst ` set post" "b \<notin> snd ` set post"
    by (rule wf_table_split)
  define s1 where "s1 = fold (v1_body R) pre st"
  define s2 where "s2 = v1_body R (a, b) s1"
  have run: "fold (v1_body R) tbl st = fold (v1_body R) post s2"
    by (simp add: split s1_def s2_def)
  have a1: "lookup (images s1) a = None"
    by (simp add: s1_def v1_loop_frame pre absent)
  have b1: "lookup (images s1) b = lookup (images st) b"
    by (simp add: s1_def v1_loop_frame pre)
  have s2: "s2 = print (FileNotFound a) s1"
    by (simp add: s2_def a1 os_path_exists_def)
  show "lookup (images (fold (v1_body R) tbl st)) a = None"
    by (simp add: run v1_loop_frame post s2 a1)
  show "lookup (images (fold (v1_body R) tbl st)) b = lookup (images st) b"
    by (simp add: run v1_loop_frame post s2 b1)
  show "FileNotFound a \<in> set (console (fold (v1_body R) tbl st))"
    unfolding run by (rule v1_loop_mono) (simp add: s2)
qed


section \<open>The directory listing\<close>

lemma os_listdir_Inr:
  assumes "os_listdir fs = Inr files"
  shows "distinct files" and "\<And>f. f \<in> set files \<longleftrightarrow> lookup fs f \<noteq> None" and "fs \<noteq> None"
proof -
  from assms obtain d where d: "fs = Some d" "files = remdups (map fst d)"
    by (cases fs) auto
  show "distinct files" by (simp add: d)
  show "fs \<noteq> None" by (simp add: d)
  show "\<And>f. f \<in> set files \<longleftrightarrow> lookup fs f \<noteq> None"
    by (simp add: d map_of_eq_None_iff)
qed

lemma os_listdir_cases:
  obtains (absent) "fs = None" | (listed) files where "os_listdir fs = Inr files"
  by (cases fs) auto

section \<open>The loop of rename\_images\_v2.py\<close>

lemma loose_match_id: "loose_match f st = st"
proof -
  have "fold (\<lambda>(k, v) s. if sublist k f then s else s) xs s0 = s0"
    for xs :: "(filename \<times> filename) list" and s0 :: state
    by (induction xs) (simp_all add: split_beta)
  then show ?thesis by (simp add: loose_match_def)
qed

lemma v2_body_console:
  "console (v2_body R f st) = console st \<or>
   (\<exists>l. console (v2_body R f st) = console st @ [l] \<and> line_file l = Some f)"
  by (simp add: v2_body_def loose_match_id split: option.splits sum.splits)

lemma v2_body_table [simp]: "table (v2_body R f st) = table st"
  by (simp add: v2_body_def loose_match_id split: option.splits sum.splits)

lemma v2_body_logfile [simp]: "logfile (v2_body R f st) = logfile st"
  by (simp add: v2_body_def loose_match_id split: option.splits sum.splits)

lemma v2_loop_table [simp]: "table (fold (v2_body R) fl st) = table st"
  by (induction fl arbitrary: st) simp_all

lemma v2_loop_logfile [simp]: "logfile (fold (v2_body R) fl st) = logfile st"
  by (induction fl arbitrary: st) simp_all

lemma v2_loop_lines:
  "l \<in> set (console (fold (v2_body R) fl st)) \<Longrightarrow> line_file l = Some a \<Longrightarrow> a \<notin> set fl \<Longrightarrow>
   l \<in> set (console st)"
proof (induction fl arbitrary: st)
  case Nil
  then show ?case by simp
next
  case (Cons f fl)
  have af: "a \<noteq> f" and afl: "a \<notin> set fl"
    using Cons.prems(3) by simp_all
  have "l \<in> set (console (fold (v2_body R) fl (v2_body R f st)))"
    using Cons.prems(1) by simp
  then have 1: "l \<in> set (console (v2_body R f st))"
    using Cons.prems(2) afl by (rule Cons.IH)
  from v2_body_console [of R f st] show ?case
  proof
    assume "console (v2_body R f st) = console st"
    with 1 show ?thesis by simp
  next
    assume "\<exists>l'. console (v2_body R f st) = console st @ [l'] \<and> line_file l' = Some f"
    then obtain l' where l': "console (v2_body R f st) = console st @ [l']"
      "line_file l' = Some f" by blast
    from l'(2) Cons.prems(2) af have "l \<noteq> l'" by auto
    with 1 l'(1) show ?thesis by simp
  qed
qed


lemma v2_body_frame:
  assumes "map_of (table st) f = None \<or> (x \<noteq> f \<and> map_of (table st) f \<noteq> Some x)"
  shows "lookup (images (v2_body R f st)) x = lookup (images st) x"
  using assms
  by (auto simp: v2_body_def loose_match_id split: option.splits sum.splits dest: os_rename_other)

lemma v2_loop_frame:
  "\<forall>f \<in> set fl. map_of (table st) f = None \<or> (x \<noteq> f \<and> map_of (table st) f \<noteq> Some x) \<Longrightarrow>
   lookup (images (fold (v2_body R) fl st)) x = lookup (images st) x"
proof (induction fl arbitrary: st)
  case Nil
  show ?case by simp
next
  case (Cons f fl)
  from Cons.prems have "lookup (images (v2_body R f st)) x = lookup (images st) x"
    by (intro v2_body_frame) simp
  moreover from Cons.prems have "lookup (images (fold (v2_body R) fl (v2_body R f st))) x =
      lookup (images (v2_body R f st)) x"
    by (intro Cons.IH) simp
  ultimately show ?case by simp
qed


lemma v2_body_error:
  "map_of (table st) f = Some b \<Longrightarrow> os_rename R (images st) f b = Inl e \<Longrightarrow>
   v2_body R f st = print (ErrorRenaming f e) st"
  by (simp add: v2_body_def)


text \<open>
  The conditions under which a pass over listed names leaves a name alone, for the source
  and the destination of a table entry whose source is not among the names.
\<close>

lemma table_frame_source:
  assumes "wf_table tbl" "(a, b) \<in> set tbl" "a \<notin> set fl"
  shows "\<forall>f \<in> set fl. map_of tbl f = None \<or> (a \<noteq> f \<and> map_of tbl f \<noteq> Some a)"
proof
  fix f assume f: "f \<in> set fl"
  have "map_of tbl a = Some b"
    using assms(1,2) by (rule wf_table_map_of)
  then have "map_of tbl f \<noteq> Some a"
    using wf_table_value_not_key [OF assms(1), of f a] by auto
  moreover have "a \<noteq> f" using f assms(3) by auto
  ultimately show "map_of tbl f = None \<or> (a \<noteq> f \<and> map_of tbl f \<noteq> Some a)"
    by simp
qed

lemma table_frame_destination:
  assumes "wf_table tbl" "(a, b) \<in> set tbl" "a \<notin> set fl"
  shows "\<forall>f \<in> set fl. map_of tbl f = None \<or> (b \<noteq> f \<and> map_of tbl f \<noteq> Some b)"
proof
  fix f assume f: "f \<in> set fl"
  have ab: "map_of tbl a = Some b"
    using assms(1,2) by (rule wf_table_map_of)
  have "map_of tbl b = None"
    using wf_table_value_not_key [OF assms(1) ab] .
  moreover have "map_of tbl f \<noteq> Some b"
    using wf_table_source_unique [OF assms(1) _ assms(2), of f] f assms(3) by auto
  ultimately show "map_of tbl f = None \<or> (b \<noteq> f \<and> map_of tbl f \<noteq> Some b)"
    by auto
qed

lemma table_frame_other:
  assumes "x \<notin> fst ` set tbl" "x \<notin> snd ` set tbl"
  shows "\<forall>f \<in> set fl. map_of tbl f = None \<or> (x \<noteq> f \<and> map_of tbl f \<noteq> Some x)"
proof
  fix f assume "f \<in> set fl"
  have "map_of tbl f \<noteq> Some x"
  proof
    assume "map_of tbl f = Some x"
    then have "(f, x) \<in> set tbl" by (rule map_of_SomeD)
    then have "x \<in> snd ` set tbl" by force
    with assms(2) show False by simp
  qed
  moreover have "map_of tbl x = None"
    using assms(1) by (simp add: map_of_eq_None_iff)
  ultimately show "map_of tbl f = None \<or> (x \<noteq> f \<and> map_of tbl f \<noteq> Some x)"
    by auto
qed




section \<open>The loop of rename\_images\_v3.py\<close>

lemma v3_body_cases:
  obtains (skip) "map_of (table st) f = None" "v3_body R f st = log_write (Skipped f) st"
    | (renamed) b fs' where "map_of (table st) f = Some b"
        "os_rename R (images st) f b = Inr fs'" "encodable (Renamed f b)"
        "v3_body R f st = Inr (st\<lparr>images := fs', logfile := logfile st @ [Renamed f b]\<rparr>)"
    | (unlogged) b fs' where "map_of (table st) f = Some b"
        "os_rename R (images st) f b = Inr fs'" "\<not> encodable (Renamed f b)"
        "v3_body R f st = log_write (ErrorRenaming f UnicodeEncodeError) (st\<lparr>images := fs'\<rparr>)"
    | (failed) b e where "map_of (table st) f = Some b"
        "os_rename R (images st) f b = Inl e"
        "v3_body R f st = log_write (ErrorRenaming f e) st"
proof (cases "map_of (table st) f")
  case None
  then show ?thesis by (intro skip) (simp_all add: v3_body_def)
next
  case (Some b)
  show ?thesis
  proof (cases "os_rename R (images st) f b")
    case (Inl e)
    with Some show ?thesis by (intro failed [of b e]) (simp_all add: v3_body_def v3_try_def)
  next
    case (Inr fs')
    show ?thesis
    proof (cases "encodable (Renamed f b)")
      case True
      with Some Inr show ?thesis
        by (intro renamed [of b fs']) (simp_all add: v3_body_def v3_try_def log_write_def)
    next
      case False
      with Some Inr show ?thesis
        by (intro unlogged [of b fs']) (simp_all add: v3_body_def v3_try_def log_write_def)
    qed
  qed
qed

lemma v3_body_table [simp]: "table (state_of (v3_body R f st)) = table st"
  by (cases rule: v3_body_cases [where st = st and f = f and R = R]) simp_all

lemma v3_body_console [simp]: "console (state_of (v3_body R f st)) = console st"
  by (cases rule: v3_body_cases [where st = st and f = f and R = R]) simp_all

lemma v3_body_logfile:
  "logfile (state_of (v3_body R f st)) = logfile st \<or>
   (\<exists>l. logfile (state_of (v3_body R f st)) = logfile st @ [l] \<and> line_file l = Some f)"
  by (cases rule: v3_body_cases [where st = st and f = f and R = R]) simp_all

lemma v3_body_raises: "v3_body R f st = Inl (e, s) \<Longrightarrow> e = UnicodeEncodeError"
  by (cases rule: v3_body_cases [where st = st and f = f and R = R]) (auto dest: log_write_raises)

lemma v3_body_frame:
  assumes "map_of (table st) f = None \<or> (x \<noteq> f \<and> map_of (table st) f \<noteq> Some x)"
  shows "lookup (images (state_of (v3_body R f st))) x = lookup (images st) x"
  using assms by (cases rule: v3_body_cases [where st = st and f = f and R = R]) (auto dest: os_rename_other)





lemma v3_body_error:
  "map_of (table st) f = Some b \<Longrightarrow> utf8_valid f \<Longrightarrow> os_rename R (images st) f b = Inl e \<Longrightarrow>
   v3_body R f st = Inr (st\<lparr>logfile := logfile st @ [ErrorRenaming f e]\<rparr>)"
  by (simp add: v3_body_def v3_try_def log_write_def)


lemma v3_body_complete:
  assumes "\<forall>e \<in> set (table st). utf8_valid (fst e) \<and> utf8_valid (snd e)" "utf8_valid f"
  shows "\<exists>st' l. v3_body R f st = Inr st' \<and> logfile st' = logfile st @ [l] \<and>
           line_file l = Some f"
proof (cases rule: v3_body_cases [where st = st and f = f and R = R])
  case skip
  with assms(2) show ?thesis by (simp add: log_write_def)
next
  case (renamed b fs')
  then show ?thesis by simp
next
  case (unlogged b fs')
  from unlogged(1) have "(f, b) \<in> set (table st)" by (rule map_of_SomeD)
  with assms have "encodable (Renamed f b)" by auto
  with unlogged(3) show ?thesis by simp
next
  case (failed b e)
  with assms(2) show ?thesis by (simp add: log_write_def)
qed

lemma v3_loop_Cons_cases:
  obtains (raised) x where "v3_body R f st = Inl x" "v3_loop R (f # fl) st = Inl x"
    | (went_on) st' where "v3_body R f st = Inr st'" "v3_loop R (f # fl) st = v3_loop R fl st'"
  by (cases "v3_body R f st") auto

lemma v3_loop_table [simp]: "table (state_of (v3_loop R fl st)) = table st"
proof (induction fl arbitrary: st)
  case Nil
  show ?case by simp
next
  case (Cons f fl)
  show ?case
  proof (cases rule: v3_loop_Cons_cases [where R = R and f = f and st = st and fl = fl])
    case (raised x)
    with v3_body_table [of R f st] show ?thesis by simp
  next
    case (went_on st')
    with v3_body_table [of R f st] Cons.IH [of st'] show ?thesis by simp
  qed
qed

lemma v3_loop_console [simp]: "console (state_of (v3_loop R fl st)) = console st"
proof (induction fl arbitrary: st)
  case Nil
  show ?case by simp
next
  case (Cons f fl)
  show ?case
  proof (cases rule: v3_loop_Cons_cases [where R = R and f = f and st = st and fl = fl])
    case (raised x)
    with v3_body_console [of R f st] show ?thesis by simp
  next
    case (went_on st')
    with v3_body_console [of R f st] Cons.IH [of st'] show ?thesis by simp
  qed
qed

lemma v3_loop_raises: "v3_loop R fl st = Inl (e, s) \<Longrightarrow> e = UnicodeEncodeError"
proof (induction fl arbitrary: st)
  case Nil
  then show ?case by simp
next
  case (Cons f fl)
  show ?case
  proof (cases rule: v3_loop_Cons_cases [where R = R and f = f and st = st and fl = fl])
    case (raised x)
    with Cons.prems show ?thesis by (auto dest: v3_body_raises)
  next
    case (went_on st')
    with Cons.prems Cons.IH [of st'] show ?thesis by simp
  qed
qed

lemma v3_loop_append:
  "v3_loop R (pre @ post) st =
     (case v3_loop R pre st of Inl x \<Rightarrow> Inl x | Inr s \<Rightarrow> v3_loop R post s)"
  by (induction pre arbitrary: st) (simp_all split: sum.splits)


lemma v3_loop_new_lines:
  "l \<in> set (logfile (state_of (v3_loop R fl st))) \<Longrightarrow>
   l \<in> set (logfile st) \<or> (\<exists>f \<in> set fl. line_file l = Some f)"
proof (induction fl arbitrary: st)
  case Nil
  then show ?case by simp
next
  case (Cons f fl)
  have step: "l \<in> set (logfile st) \<or> line_file l = Some f"
    if "l \<in> set (logfile (state_of (v3_body R f st)))"
    using v3_body_logfile [of R f st] that by auto
  show ?case
  proof (cases rule: v3_loop_Cons_cases [where R = R and f = f and st = st and fl = fl])
    case (raised x)
    with Cons.prems step show ?thesis by auto
  next
    case (went_on st')
    with Cons.prems have "l \<in> set (logfile (state_of (v3_loop R fl st')))" by simp
    from Cons.IH [OF this] have "l \<in> set (logfile st') \<or> (\<exists>f \<in> set fl. line_file l = Some f)" .
    with step went_on(1) show ?thesis by auto
  qed
qed

lemma v3_loop_lines:
  assumes "l \<in> set (logfile (state_of (v3_loop R fl st)))" "line_file l = Some a" "a \<notin> set fl"
  shows "l \<in> set (logfile st)"
  using v3_loop_new_lines [OF assms(1)] assms(2,3) by auto

lemma v3_loop_frame:
  "\<forall>f \<in> set fl. map_of (table st) f = None \<or> (x \<noteq> f \<and> map_of (table st) f \<noteq> Some x) \<Longrightarrow>
   lookup (images (state_of (v3_loop R fl st))) x = lookup (images st) x"
proof (induction fl arbitrary: st)
  case Nil
  show ?case by simp
next
  case (Cons f fl)
  from Cons.prems have step: "lookup (images (state_of (v3_body R f st))) x = lookup (images st) x"
    by (intro v3_body_frame) simp
  show ?case
  proof (cases rule: v3_loop_Cons_cases [where R = R and f = f and st = st and fl = fl])
    case (raised x)
    with step show ?thesis by simp
  next
    case (went_on st')
    then have t: "table st' = table st" using v3_body_table [of R f st] by simp
    from Cons.prems have "lookup (images (state_of (v3_loop R fl st'))) x = lookup (images st') x"
      by (intro Cons.IH) (simp add: t)
    with step went_on show ?thesis by simp
  qed
qed





lemma v3_loop_complete:
  assumes "\<forall>e \<in> set (table st). utf8_valid (fst e) \<and> utf8_valid (snd e)"
    and "\<forall>f \<in> set fl. utf8_valid f"
  shows "\<exists>st' ls. v3_loop R fl st = Inr st' \<and> logfile st' = logfile st @ ls \<and>
           map line_file ls = map Some fl"
  using assms
proof (induction fl arbitrary: st)
  case Nil
  show ?case by simp
next
  case (Cons f fl)
  from Cons.prems have "utf8_valid f" by simp
  from v3_body_complete [OF Cons.prems(1) this, of R]
  obtain s1 l where s1: "v3_body R f st = Inr s1" "logfile s1 = logfile st @ [l]"
    "line_file l = Some f" by blast
  have t: "table s1 = table st" using v3_body_table [of R f st] s1(1) by simp
  from Cons.prems have "\<exists>st' ls. v3_loop R fl s1 = Inr st' \<and> logfile st' = logfile s1 @ ls \<and>
           map line_file ls = map Some fl"
    by (intro Cons.IH) (simp_all add: t)
  then obtain st' ls where st': "v3_loop R fl s1 = Inr st'" "logfile st' = logfile s1 @ ls"
    "map line_file ls = map Some fl" by blast
  have "v3_loop R (f # fl) st = Inr st'" using s1(1) st'(1) by simp
  moreover have "logfile st' = logfile st @ (l # ls)" using s1(2) st'(2) by simp
  moreover have "map line_file (l # ls) = map Some (f # fl)" using s1(3) st'(3) by simp
  ultimately show ?case by blast
qed


section \<open>Whole runs\<close>

lemma v1_final: "final (v1 R fs) = fold (v1_body R) mapping ((start fs)\<lparr>table := mapping\<rparr>)"
  by (simp add: v1_def final_def)

lemma v1_status: "status (v1 R fs) = Exit0"
  by (simp add: v1_def status_def)

lemma v1_dir_after:
  "dir_after (v1 R fs) = lookup (images (fold (v1_body R) mapping ((start fs)\<lparr>table := mapping\<rparr>)))"
  by (simp add: v1_def dir_after_def)

lemma start_simps [simp]:
  "images (start fs) = fs" "console (start fs) = []" "logfile (start fs) = []"
  "table (start fs) = []"
  by (simp_all add: start_def)

lemma v2_None: "v2 R None = (Traceback (FileNotFoundError base_dir), start None)"
  by (simp add: v2_def)

lemma v2_Some:
  "os_listdir fs = Inr files \<Longrightarrow>
   v2 R fs = (Exit0, fold (v2_body R) files ((print (FilesIn files) (start fs))\<lparr>table := mapping\<rparr>))"
  by (simp add: v2_def)

lemma v3_loop_Inr_state:
  assumes "v3_loop R fl st = Inr s"
  shows "table s = table st" and "console s = console st"
proof -
  have "s = state_of (v3_loop R fl st)" by (simp add: assms)
  then show "table s = table st" and "console s = console st" by simp_all
qed

lemma v3_loop_Inl_state:
  assumes "v3_loop R fl st = Inl (e, s)"
  shows "table s = table st" and "console s = console st"
proof -
  have "s = state_of (v3_loop R fl st)" by (simp add: assms)
  then show "table s = table st" and "console s = console st" by simp_all
qed

lemma v3_cases:
  obtains (absent) "fs = None"
      "v3 R fs = (Exit0, \<lparr>images = None, console = [Done],
         logfile = [GlobalError (FileNotFoundError base_dir)], table = mapping\<rparr>)"
    | (completed) files s where "os_listdir fs = Inr files"
      "v3_loop R files
         \<lparr>images = fs, console = [], logfile = [FilesFound files], table = mapping\<rparr> = Inr s"
      "v3 R fs = (Exit0, print Done s)"
    | (abandoned) files s where "os_listdir fs = Inr files"
      "v3_loop R files
         \<lparr>images = fs, console = [], logfile = [FilesFound files], table = mapping\<rparr> =
       Inl (UnicodeEncodeError, s)"
      "v3 R fs = (Exit0, print Done (s\<lparr>logfile := logfile s @ [GlobalError UnicodeEncodeError]\<rparr>))"
proof (cases fs rule: os_listdir_cases)
  case absent
  then show ?thesis
    by (intro that(1)) (simp_all add: v3_def v3_outer_def log_write_def start_def print_def)
next
  case (listed files)
  define st1 where
    "st1 = \<lparr>images = fs, console = [], logfile = [FilesFound files], table = mapping\<rparr>"
  have outer: "v3_outer R ((start fs)\<lparr>table := mapping\<rparr>) = v3_loop R files st1"
    by (simp add: v3_outer_def listed log_write_def start_def st1_def)
  show ?thesis
  proof (cases "v3_loop R files st1")
    case (Inr s)
    with outer have "v3 R fs = (Exit0, print Done s)"
      by (simp add: v3_def)
    with listed Inr show ?thesis unfolding st1_def by (rule that(2))
  next
    case (Inl x)
    obtain e s where x: "x = (e, s)" by (cases x)
    with Inl have e: "e = UnicodeEncodeError" by (auto dest: v3_loop_raises)
    from outer Inl x e
    have "v3 R fs = (Exit0, print Done (s\<lparr>logfile := logfile s @ [GlobalError UnicodeEncodeError]\<rparr>))"
      by (simp add: v3_def log_write_def)
    with listed Inl x e show ?thesis unfolding st1_def by (intro that(3)) simp_all
  qed
qed

lemma v3_status: "status (v3 R fs) = Exit0"
  by (cases rule: v3_cases [where R = R and fs = fs]) (simp_all add: status_def)

text \<open>
  A run of v3 in terms of the state its loop ended in: the log is the loop's, with the
  \<^verbatim>\<open>Global error\<close> line added when the loop was abandoned.
\<close>

lemma v3_listed:
  fixes R fs files
  defines "r \<equiv> v3_loop R files
      \<lparr>images = fs, console = [], logfile = [FilesFound files], table = mapping\<rparr>"
  assumes listed: "os_listdir fs = Inr files"
  shows "images (final (v3 R fs)) = images (state_of r)"
    and "table (final (v3 R fs)) = mapping"
    and "console (final (v3 R fs)) = [Done]"
    and "logfile (final (v3 R fs)) =
      (case r of Inr s \<Rightarrow> logfile s
       | Inl x \<Rightarrow> logfile (state_of r) @ [GlobalError UnicodeEncodeError])"
proof -
  have "images (final (v3 R fs)) = images (state_of r) \<and>
    table (final (v3 R fs)) = mapping \<and> console (final (v3 R fs)) = [Done] \<and>
    logfile (final (v3 R fs)) =
      (case r of Inr s \<Rightarrow> logfile s
       | Inl x \<Rightarrow> logfile (state_of r) @ [GlobalError UnicodeEncodeError])"
  proof (cases rule: v3_cases [where R = R and fs = fs])
    case absent
    with listed show ?thesis by simp
  next
    case (completed files' s)
    with listed have "r = Inr s" by (simp add: r_def)
    moreover have "table s = mapping" "console s = []"
      using v3_loop_Inr_state [OF completed(2)] by simp_all
    ultimately show ?thesis using completed(3) by (simp add: final_def)
  next
    case (abandoned files' s)
    with listed have r: "r = Inl (UnicodeEncodeError, s)" by (simp add: r_def)
    moreover have "table s = mapping" "console s = []"
      using v3_loop_Inl_state [OF abandoned(2)] by simp_all
    ultimately show ?thesis using abandoned(3) by (simp add: final_def)
  qed
  then show "images (final (v3 R fs)) = images (state_of r)"
    and "table (final (v3 R fs)) = mapping"
    and "console (final (v3 R fs)) = [Done]"
    and "logfile (final (v3 R fs)) =
      (case r of Inr s \<Rightarrow> logfile s
       | Inl x \<Rightarrow> logfile (state_of r) @ [GlobalError UnicodeEncodeError])"
    by simp_all
qed

lemma v3_absent:
  "v3 R None = (Exit0, \<lparr>images = None, console = [Done],
         logfile = [GlobalError (FileNotFoundError base_dir)], table = mapping\<rparr>)"
  by (simp add: v3_def v3_outer_def log_write_def start_def print_def)





lemma rename_refused_never:
  "\<forall>d. R d a b = None \<Longrightarrow> \<not> rename_refused R fs a b c after out"
  by (simp add: rename_refused_def)


subsection \<open>rename\_images.py\<close>

lemma v1_run_absent:
  assumes "(a, b) \<in> set mapping" "lookup fs a = None"
  shows "dir_after (v1 R fs) a = None \<and> dir_after (v1 R fs) b = lookup fs b \<and>
         FileNotFound a \<in> set (console (final (v1 R fs)))"
  using v1_entry_absent [OF wf_table_mapping assms(1), of "(start fs)\<lparr>table := mapping\<rparr>" R] assms(2)
  by (simp add: v1_dir_after v1_final)


lemma v1_run_frame:
  assumes "x \<notin> fst ` set mapping" "x \<notin> snd ` set mapping"
  shows "dir_after (v1 R fs) x = lookup fs x"
  using v1_loop_frame [OF assms, of R "(start fs)\<lparr>table := mapping\<rparr>"]
  by (simp add: v1_dir_after)

lemma name_not_key: "map_of mapping x = None \<longleftrightarrow> x \<notin> fst ` set mapping"
  by (simp add: map_of_eq_None_iff)



subsection \<open>rename\_images\_v2.py\<close>

lemma v2_final:
  assumes "os_listdir fs = Inr files"
  shows "final (v2 R fs) =
      fold (v2_body R) files ((print (FilesIn files) (start fs))\<lparr>table := mapping\<rparr>)"
    and "dir_after (v2 R fs) = lookup (images
      (fold (v2_body R) files ((print (FilesIn files) (start fs))\<lparr>table := mapping\<rparr>)))"
    and "status (v2 R fs) = Exit0"
  by (simp_all add: v2_Some [OF assms] final_def dir_after_def status_def)

lemma v2_run_absent:
  assumes "(a, b) \<in> set mapping" "lookup fs a = None"
  shows "dir_after (v2 R fs) a = None \<and> dir_after (v2 R fs) b = lookup fs b \<and>
         \<not> list_ex (\<lambda>l. line_file l = Some a) (console (final (v2 R fs)))"
proof (cases fs rule: os_listdir_cases)
  case absent
  then show ?thesis by (simp add: v2_None final_def dir_after_def)
next
  case (listed files)
  define st where "st = (print (FilesIn files) (start fs))\<lparr>table := mapping\<rparr>"
  have wf: "wf_table (table st)" and mem: "(a, b) \<in> set (table st)"
    by (simp_all add: st_def wf_table_mapping assms(1))
  have notin: "a \<notin> set files"
    using os_listdir_Inr(2) [OF listed, of a] assms(2) by simp
  have "lookup (images (fold (v2_body R) files st)) a = lookup fs a"
    using v2_loop_frame [OF table_frame_source [OF wf mem notin], of R] by (simp add: st_def)
  moreover have "lookup (images (fold (v2_body R) files st)) b = lookup fs b"
    using v2_loop_frame [OF table_frame_destination [OF wf mem notin], of R]
    by (simp add: st_def)
  moreover have "\<not> list_ex (\<lambda>l. line_file l = Some a) (console (fold (v2_body R) files st))"
  proof
    assume "list_ex (\<lambda>l. line_file l = Some a) (console (fold (v2_body R) files st))"
    then obtain l where l: "l \<in> set (console (fold (v2_body R) files st))" "line_file l = Some a"
      by (auto simp: list_ex_iff)
    from v2_loop_lines [OF l notin] have "l \<in> set (console st)" .
    with l(2) show False by (simp add: st_def)
  qed
  ultimately show ?thesis
    using assms(2) by (simp add: v2_final [OF listed] flip: st_def)
qed


lemma v2_run_frame:
  assumes "x \<notin> fst ` set mapping" "x \<notin> snd ` set mapping"
  shows "dir_after (v2 R fs) x = lookup fs x"
proof (cases fs rule: os_listdir_cases)
  case absent
  then show ?thesis by (simp add: v2_None dir_after_def)
next
  case (listed files)
  define st where "st = (print (FilesIn files) (start fs))\<lparr>table := mapping\<rparr>"
  have "lookup (images (fold (v2_body R) files st)) x = lookup (images st) x"
    using v2_loop_frame [of files st x R] table_frame_other [OF assms, of files]
    by (simp add: st_def)
  then show ?thesis
    by (simp add: v2_final [OF listed] flip: st_def) (simp add: st_def)
qed



subsection \<open>rename\_images\_v3.py\<close>

lemma v3_run_absent:
  assumes "(a, b) \<in> set mapping" "lookup fs a = None"
  shows "dir_after (v3 R fs) a = None \<and> dir_after (v3 R fs) b = lookup fs b \<and>
         \<not> list_ex (\<lambda>l. line_file l = Some a) (logfile (final (v3 R fs)))"
proof (cases fs rule: os_listdir_cases)
  case absent
  then show ?thesis by (simp add: v3_absent dir_after_def final_def)
next
  case (listed files)
  define st where
    "st = \<lparr>images = fs, console = [], logfile = [FilesFound files], table = mapping\<rparr>"
  define r where "r = v3_loop R files st"
  note run = v3_listed [OF listed, of R, folded st_def, folded r_def]
  have wf: "wf_table (table st)" and mem: "(a, b) \<in> set (table st)"
    by (simp_all add: st_def wf_table_mapping assms(1))
  have notin: "a \<notin> set files"
    using os_listdir_Inr(2) [OF listed, of a] assms(2) by simp
  have "lookup (images (state_of r)) a = lookup fs a"
    unfolding r_def
    using v3_loop_frame [OF table_frame_source [OF wf mem notin], of R] by (simp add: st_def)
  moreover have "lookup (images (state_of r)) b = lookup fs b"
    unfolding r_def
    using v3_loop_frame [OF table_frame_destination [OF wf mem notin], of R]
    by (simp add: st_def)
  moreover have "\<not> list_ex (\<lambda>l. line_file l = Some a) (logfile (final (v3 R fs)))"
  proof
    assume "list_ex (\<lambda>l. line_file l = Some a) (logfile (final (v3 R fs)))"
    then obtain l where l: "l \<in> set (logfile (final (v3 R fs)))" "line_file l = Some a"
      by (auto simp: list_ex_iff)
    from l have "l \<in> set (logfile (state_of r))"
      by (cases r) (auto simp: run(4))
    from v3_loop_lines [OF this [unfolded r_def] l(2) notin] have "l \<in> set (logfile st)" .
    with l(2) show False by (simp add: st_def)
  qed
  ultimately show ?thesis
    using assms(2) by (simp add: dir_after_def run(1) flip: final_def)
qed


lemma v3_run_frame:
  assumes "x \<notin> fst ` set mapping" "x \<notin> snd ` set mapping"
  shows "dir_after (v3 R fs) x = lookup fs x"
proof (cases fs rule: os_listdir_cases)
  case absent
  then show ?thesis by (simp add: v3_absent dir_after_def)
next
  case (listed files)
  define st where
    "st = \<lparr>images = fs, console = [], logfile = [FilesFound files], table = mapping\<rparr>"
  have "lookup (images (state_of (v3_loop R files st))) x = lookup (images st) x"
    using v3_loop_frame [of files st x R] table_frame_other [OF assms, of files]
    by (simp add: st_def)
  then show ?thesis
    using v3_listed(1) [OF listed, of R]
    by (simp add: dir_after_def st_def flip: final_def)
qed



text \<open>Names outside the table, and destination names whose source is absent.\<close>

lemma untouched_names:
  assumes "map_of mapping x = None" "\<And>a. (a, x) \<in> set mapping \<Longrightarrow> lookup fs a = None"
  shows "dir_after (v1 R fs) x = lookup fs x" "dir_after (v2 R fs) x = lookup fs x"
    "dir_after (v3 R fs) x = lookup fs x"
proof -
  have key: "x \<notin> fst ` set mapping"
    using assms(1) by (simp add: name_not_key)
  have "dir_after (v1 R fs) x = lookup fs x \<and> dir_after (v2 R fs) x = lookup fs x \<and>
        dir_after (v3 R fs) x = lookup fs x"
  proof (cases "x \<in> snd ` set mapping")
    case True
    then obtain a where a: "(a, x) \<in> set mapping" by force
    with assms(2) have "lookup fs a = None" by simp
    with v1_run_absent [OF a, of fs R] v2_run_absent [OF a, of fs R] v3_run_absent [OF a, of fs R]
    show ?thesis by simp
  next
    case False
    with key show ?thesis by (simp add: v1_run_frame v2_run_frame v3_run_frame)
  qed
  then show "dir_after (v1 R fs) x = lookup fs x" "dir_after (v2 R fs) x = lookup fs x"
    "dir_after (v3 R fs) x = lookup fs x"
    by simp_all
qed

section \<open>Runs on small directories\<close>

lemma goyangi_entry: "(goyangi_jpg, ''cat-mascot.jpg'') \<in> set mapping"
  by (simp add: mapping_def goyangi_jpg_def)

lemma cat_not_goyangi: "goyangi_jpg \<noteq> ''cat-mascot.jpg''"
  by (simp add: goyangi_jpg_def)

lemma cat_source: "(a, ''cat-mascot.jpg'') \<in> set mapping \<Longrightarrow> a = goyangi_jpg"
  using wf_table_source_unique [OF wf_table_mapping _ goyangi_entry, of a]
    wf_table_map_of [OF wf_table_mapping, of a "''cat-mascot.jpg''"]
  by simp

lemma cat_not_key: "map_of mapping ''cat-mascot.jpg'' = None"
  by (simp add: mapping_def)

lemma lookup_cat_only:
  "lookup (cat_only c) goyangi_jpg = Some c" "lookup (cat_only c) ''cat-mascot.jpg'' = None"
  by (simp_all add: cat_only_def goyangi_jpg_def)

lemma lookup_cat_renamed:
  "lookup (cat_renamed c) goyangi_jpg = None" "lookup (cat_renamed c) ''cat-mascot.jpg'' = Some c"
  by (simp_all add: cat_renamed_def goyangi_jpg_def)

lemma os_posix_cat: "os_posix [(goyangi_jpg, c)] goyangi_jpg ''cat-mascot.jpg'' = None"
  by (simp add: os_posix_def)

lemma os_denied_cat:
  "os_denied [(goyangi_jpg, c)] goyangi_jpg ''cat-mascot.jpg'' = Some ''[Errno 13] Permission denied''"
  by (simp add: os_denied_def)

lemma v1_cat_only_ok:
  assumes "R [(goyangi_jpg, c)] goyangi_jpg ''cat-mascot.jpg'' = None"
  shows "v1 R (cat_only c) =
          (Exit0, \<lparr>images = Some [(''cat-mascot.jpg'', c)],
             console = map (\<lambda>(a, b). if a = goyangi_jpg then Renamed a b else FileNotFound a) mapping,
             logfile = [], table = mapping\<rparr>)"
  using assms
  by (simp add: v1_def mapping_def goyangi_jpg_def cat_only_def start_def print_def
      os_path_exists_def)

lemma v1_cat_only_refused:
  assumes "R [(goyangi_jpg, c)] goyangi_jpg ''cat-mascot.jpg'' = Some msg"
  shows "v1 R (cat_only c) =
          (Exit0, \<lparr>images = cat_only c,
             console = map (\<lambda>(a, b). if a = goyangi_jpg then ErrorRenaming a (OSError msg)
                                      else FileNotFound a) mapping,
             logfile = [], table = mapping\<rparr>)"
  using assms
  by (simp add: v1_def mapping_def goyangi_jpg_def cat_only_def start_def print_def
      os_path_exists_def)

lemma v2_cat_only_ok:
  assumes "R [(goyangi_jpg, c)] goyangi_jpg ''cat-mascot.jpg'' = None"
  shows "v2 R (cat_only c) =
          (Exit0, \<lparr>images = Some [(''cat-mascot.jpg'', c)],
             console = [FilesIn [goyangi_jpg], Renamed goyangi_jpg ''cat-mascot.jpg''],
             logfile = [], table = mapping\<rparr>)"
  using assms
  by (simp add: v2_def v2_body_def mapping_def goyangi_jpg_def cat_only_def start_def print_def)

lemma v2_cat_only_refused:
  assumes "R [(goyangi_jpg, c)] goyangi_jpg ''cat-mascot.jpg'' = Some msg"
  shows "v2 R (cat_only c) =
          (Exit0, \<lparr>images = cat_only c,
             console = [FilesIn [goyangi_jpg], ErrorRenaming goyangi_jpg (OSError msg)],
             logfile = [], table = mapping\<rparr>)"
  using assms
  by (simp add: v2_def v2_body_def mapping_def goyangi_jpg_def cat_only_def start_def print_def)

lemma v3_cat_only_ok:
  assumes "R [(goyangi_jpg, c)] goyangi_jpg ''cat-mascot.jpg'' = None"
  shows "v3 R (cat_only c) =
          (Exit0, \<lparr>images = Some [(''cat-mascot.jpg'', c)], console = [Done],
             logfile = [FilesFound [goyangi_jpg], Renamed goyangi_jpg ''cat-mascot.jpg''],
             table = mapping\<rparr>)"
  using assms
  by (simp add: v3_def v3_outer_def v3_body_def v3_try_def log_write_def mapping_def
      goyangi_jpg_def cat_only_def start_def print_def
      byte_in_def cont_def lead2_def lead3_def lead4_def)

lemma v3_cat_only_refused:
  assumes "R [(goyangi_jpg, c)] goyangi_jpg ''cat-mascot.jpg'' = Some msg"
  shows "v3 R (cat_only c) =
          (Exit0, \<lparr>images = cat_only c, console = [Done],
             logfile = [FilesFound [goyangi_jpg], ErrorRenaming goyangi_jpg (OSError msg)],
             table = mapping\<rparr>)"
  using assms
  by (simp add: v3_def v3_outer_def v3_body_def v3_try_def log_write_def mapping_def
      goyangi_jpg_def cat_only_def start_def print_def
      byte_in_def cont_def lead2_def lead3_def lead4_def)

lemmas cat_posix =
  v1_cat_only_ok [where R = os_posix, OF os_posix_cat]
  v2_cat_only_ok [where R = os_posix, OF os_posix_cat]
  v3_cat_only_ok [where R = os_posix, OF os_posix_cat]

lemmas cat_denied =
  v1_cat_only_refused [where R = os_denied, OF os_denied_cat]
  v2_cat_only_refused [where R = os_denied, OF os_denied_cat]
  v3_cat_only_refused [where R = os_denied, OF os_denied_cat]

lemma empty_runs:
  "v2 R (Some []) =
     (Exit0, \<lparr>images = Some [], console = [FilesIn []], logfile = [], table = mapping\<rparr>)"
  "v3 R (Some []) =
     (Exit0, \<lparr>images = Some [], console = [Done], logfile = [FilesFound []],
              table = mapping\<rparr>)"
  by (simp_all add: v2_def v3_def v3_outer_def start_def print_def log_write_def)

lemma cat_twice_runs:
  "dir_after (v1 os_posix cat_twice) ''cat-mascot.jpg'' = Some ''new''"
  "dir_after (v2 os_posix cat_twice) ''cat-mascot.jpg'' = Some ''new''"
  "dir_after (v3 os_posix cat_twice) ''cat-mascot.jpg'' = Some ''new''"
  by (simp_all add: v1_def v2_def v3_def v3_outer_def v2_body_def v3_body_def v3_try_def
      mapping_def goyangi_jpg_def cat_twice_def start_def print_def log_write_def
      os_path_exists_def os_posix_def dir_after_def loose_match_id
      byte_in_def cont_def lead2_def lead3_def lead4_def)








section \<open>What a run did with an entry\<close>





section \<open>The claims\<close>




text \<open>
  C2, evaluated where it fails. With no \<^verbatim>\<open>images\<close> directory,
  \<^verbatim>\<open>os.listdir\<close> on line 8 of \<^verbatim>\<open>rename_images_v2.py\<close> raises outside any
  \<^verbatim>\<open>try\<close>: the script ends with a traceback, not with status 0, and has printed
  nothing. On the same input \<^verbatim>\<open>rename_images.py\<close> and \<^verbatim>\<open>rename_images_v3.py\<close>
  exit with status 0.
\<close>

theorem v2_missing_directory:
  "status (v2 R None) = Traceback (FileNotFoundError base_dir) \<and>
   console (final (v2 R None)) = [] \<and>
   status (v1 R None) = Exit0 \<and> status (v3 R None) = Exit0"
proof -
  have "status (v2 R None) = Traceback (FileNotFoundError base_dir)"
    by (simp add: v2_None status_def)
  moreover have "console (final (v2 R None)) = []"
    by (simp add: v2_None final_def)
  ultimately show ?thesis
    by (simp add: v1_status v3_status)
qed

text \<open>
  C3, as the code has it. For a table entry whose source name is not in the base
  directory, the source name is still absent after the run and the destination name holds
  what it held before. \<^verbatim>\<open>rename_images.py\<close> prints \<^verbatim>\<open>File not found\<close> for the
  entry; v2 and v3 walk the directory listing, never see the name, and write no line
  about it.
\<close>

theorem absent_source_no_change:
  assumes "(a, b) \<in> set mapping" "lookup fs a = None"
  shows
    "dir_after (v1 R fs) a = None \<and> dir_after (v1 R fs) b = lookup fs b \<and>
     FileNotFound a \<in> set (console (final (v1 R fs))) \<and>
     dir_after (v2 R fs) a = None \<and> dir_after (v2 R fs) b = lookup fs b \<and>
     \<not> list_ex (\<lambda>l. line_file l = Some a) (console (final (v2 R fs))) \<and>
     dir_after (v3 R fs) a = None \<and> dir_after (v3 R fs) b = lookup fs b \<and>
     \<not> list_ex (\<lambda>l. line_file l = Some a) (logfile (final (v3 R fs)))"
  using v1_run_absent [OF assms, of R] v2_run_absent [OF assms, of R]
    v3_run_absent [OF assms, of R]
  by simp

text \<open>
  C3 as stated fails for v2 and v3: on an empty directory the picture's entry has no
  source file, and v2 prints its listing line only, v3 logs its listing line only
  (and prints \<^verbatim>\<open>Done\<close>); there is no \<^verbatim>\<open>not found\<close> or \<^verbatim>\<open>Skipped\<close>
  line for the entry.
\<close>

theorem absent_source_no_message:
  "(goyangi_jpg, ''cat-mascot.jpg'') \<in> set mapping \<and>
   lookup (Some []) goyangi_jpg = None \<and>
   console (final (v2 os_posix (Some []))) = [FilesIn []] \<and>
   logfile (final (v3 os_posix (Some []))) = [FilesFound []] \<and>
   console (final (v3 os_posix (Some []))) = [Done]"
  by (simp add: empty_runs final_def goyangi_entry)

text \<open>The theorem of C3 at a concrete directory.\<close>

theorem absent_source_no_change_witness:
  "(goyangi_jpg, ''cat-mascot.jpg'') \<in> set mapping \<and>
   lookup (Some []) goyangi_jpg = None \<and>
   dir_after (v1 os_posix (Some [])) goyangi_jpg = None \<and>
   dir_after (v1 os_posix (Some [])) ''cat-mascot.jpg'' = None \<and>
   FileNotFound goyangi_jpg \<in> set (console (final (v1 os_posix (Some [])))) \<and>
   \<not> list_ex (\<lambda>l. line_file l = Some goyangi_jpg) (logfile (final (v3 os_posix (Some []))))"
  using absent_source_no_change
    [where a = goyangi_jpg and b = "''cat-mascot.jpg''" and fs = "Some []" and R = os_posix]
  by (simp add: goyangi_entry)



text \<open>
  C5, as the code has it. The base directory holds the cat picture only and the platform
  does not refuse its rename. After one run of any of the scripts the directory holds
  \<^verbatim>\<open>cat-mascot.jpg\<close> only, with the picture's contents.
  \<^verbatim>\<open>rename_images.py\<close> prints exactly one \<^verbatim>\<open>Renamed\<close> line and nine
  \<^verbatim>\<open>File not found\<close> lines. v3 logs its listing line and exactly one
  \<^verbatim>\<open>Renamed\<close> line, and no \<^verbatim>\<open>Skipped\<close> or \<^verbatim>\<open>not found\<close> line: it
  reports on the files it listed, not on the table entries.
\<close>

theorem single_cat_file:
  assumes "R [(goyangi_jpg, c)] goyangi_jpg ''cat-mascot.jpg'' = None"
  shows
    "images (final (v1 R (cat_only c))) = Some [(''cat-mascot.jpg'', c)] \<and>
     length (filter is_renamed (console (final (v1 R (cat_only c))))) = 1 \<and>
     length (filter is_not_found (console (final (v1 R (cat_only c))))) = 9 \<and>
     length (console (final (v1 R (cat_only c)))) = 10 \<and>
     images (final (v3 R (cat_only c))) = Some [(''cat-mascot.jpg'', c)] \<and>
     logfile (final (v3 R (cat_only c))) =
       [FilesFound [goyangi_jpg], Renamed goyangi_jpg ''cat-mascot.jpg''] \<and>
     length (filter is_renamed (logfile (final (v3 R (cat_only c))))) = 1 \<and>
     length (filter (\<lambda>l. is_not_found l \<or> is_skipped l) (logfile (final (v3 R (cat_only c))))) = 0 \<and>
     images (final (v2 R (cat_only c))) = Some [(''cat-mascot.jpg'', c)] \<and>
     console (final (v2 R (cat_only c))) =
       [FilesIn [goyangi_jpg], Renamed goyangi_jpg ''cat-mascot.jpg'']"
proof -
  note r1 = v1_cat_only_ok [where R = R and c = c, OF assms]
  note r2 = v2_cat_only_ok [where R = R and c = c, OF assms]
  note r3 = v3_cat_only_ok [where R = R and c = c, OF assms]
  have "length (filter is_renamed (console (final (v1 R (cat_only c))))) = 1"
    unfolding final_def r1 by (simp add: mapping_def goyangi_jpg_def)
  moreover have "length (filter is_not_found (console (final (v1 R (cat_only c))))) = 9"
    unfolding final_def r1 by (simp add: mapping_def goyangi_jpg_def)
  moreover have "length (console (final (v1 R (cat_only c)))) = 10"
    unfolding final_def r1 by (simp add: length_mapping)
  moreover have "images (final (v1 R (cat_only c))) = Some [(''cat-mascot.jpg'', c)]"
    unfolding final_def r1 by simp
  ultimately show ?thesis
    by (simp add: r2 r3 final_def)
qed

text \<open>
  C5 as stated fails for v3, whose log has no \<^verbatim>\<open>Skipped\<close> or \<^verbatim>\<open>not found\<close>
  line at all rather than nine, and it fails for every script where the platform refuses
  the rename: the directory then still holds the picture under its old name, no
  \<^verbatim>\<open>cat-mascot.jpg\<close>, and no \<^verbatim>\<open>Renamed\<close> line is written.
\<close>

theorem cat_log_without_skipped_lines:
  "length (filter (\<lambda>l. is_not_found l \<or> is_skipped l)
     (logfile (final (v3 os_posix (cat_only ''photo''))))) = 0 \<and>
   length (filter is_renamed (logfile (final (v3 os_posix (cat_only ''photo''))))) = 1 \<and>
   images (final (v3 os_posix (cat_only ''photo''))) = Some [(''cat-mascot.jpg'', ''photo'')] \<and>
   images (final (v1 os_denied (cat_only ''photo''))) = cat_only ''photo'' \<and>
   lookup (cat_only ''photo'') ''cat-mascot.jpg'' = None \<and>
   length (filter is_renamed (console (final (v1 os_denied (cat_only ''photo''))))) = 0"
proof -
  have "length (filter is_renamed (console (final (v1 os_denied (cat_only ''photo''))))) = 0"
    unfolding final_def cat_denied by (simp add: mapping_def goyangi_jpg_def)
  moreover have "images (final (v1 os_denied (cat_only ''photo''))) = cat_only ''photo''"
    unfolding final_def cat_denied by simp
  ultimately show ?thesis
    by (simp add: cat_posix final_def lookup_cat_only)
qed

text \<open>The theorem of C5 at a concrete directory.\<close>

theorem single_cat_file_witness:
  "os_posix [(goyangi_jpg, ''photo'')] goyangi_jpg ''cat-mascot.jpg'' = None \<and>
   images (final (v1 os_posix (cat_only ''photo''))) = Some [(''cat-mascot.jpg'', ''photo'')] \<and>
   length (filter is_renamed (console (final (v1 os_posix (cat_only ''photo''))))) = 1 \<and>
   length (filter is_not_found (console (final (v1 os_posix (cat_only ''photo''))))) = 9"
  using single_cat_file [where R = os_posix and c = "''photo''"]
  by (simp add: os_posix_def)

text \<open>
  C6: a failed rename is caught where it happens. Wherever in the loop
  \<^verbatim>\<open>os.rename\<close> raises \<open>e\<close> for an entry, the loop writes the line
  \<^verbatim>\<open>Error renaming\<close> with the entry's file name and \<open>e\<close>, leaves the directory as
  it was, and goes on with the entries that remain: in \<^verbatim>\<open>rename_images.py\<close>, in v2,
  and in v3 (where the loop is the one over the script's table, whose keys the log can
  encode). Whatever fails, \<^verbatim>\<open>rename_images.py\<close> ends with status 0 having printed one
  line per table entry, in order; v2 ends with status 0 once the listing succeeded; v3
  ends with status 0, and when every listed name is valid UTF-8 it has logged one line per
  listed file after the listing line: no failed rename ends its pass.
\<close>

theorem rename_failure_continues:
  "(os_path_exists (images (fold (v1_body R) pre st)) a \<and>
    os_rename R (images (fold (v1_body R) pre st)) a b = Inl e \<longrightarrow>
      fold (v1_body R) (pre @ (a, b) # post) st =
        fold (v1_body R) post (print (ErrorRenaming a e) (fold (v1_body R) pre st))) \<and>
   (map_of (table (fold (v2_body R) fpre st)) f = Some b \<and>
    os_rename R (images (fold (v2_body R) fpre st)) f b = Inl e \<longrightarrow>
      fold (v2_body R) (fpre @ f # fpost) st =
        fold (v2_body R) fpost (print (ErrorRenaming f e) (fold (v2_body R) fpre st))) \<and>
   (table st = mapping \<and> v3_loop R fpre st = Inr st1 \<and> map_of mapping f = Some b \<and>
    os_rename R (images st1) f b = Inl e \<longrightarrow>
      v3_loop R (fpre @ f # fpost) st =
        v3_loop R fpost (st1\<lparr>logfile := logfile st1 @ [ErrorRenaming f e]\<rparr>)) \<and>
   status (v1 R fs) = Exit0 \<and>
   map line_file (console (final (v1 R fs))) = map (\<lambda>e. Some (fst e)) mapping \<and>
   status (v3 R fs) = Exit0 \<and>
   (os_listdir fs = Inr files \<longrightarrow> status (v2 R fs) = Exit0) \<and>
   (os_listdir fs = Inr files \<and> list_all utf8_valid files \<longrightarrow>
      map line_file (logfile (final (v3 R fs))) = None # map Some files)"
proof -
  have 1: "map line_file (console (final (v1 R fs))) = map (\<lambda>e. Some (fst e)) mapping"
    using v1_loop_console [of R mapping "(start fs)\<lparr>table := mapping\<rparr>"]
    by (auto simp: v1_final comp_def)
  have 2: "map line_file (logfile (final (v3 R fs))) = None # map Some files"
    if listed: "os_listdir fs = Inr files" and valid: "list_all utf8_valid files"
  proof -
    define s0 where
      "s0 = \<lparr>images = fs, console = [], logfile = [FilesFound files], table = mapping\<rparr>"
    have "\<forall>e \<in> set (table s0). utf8_valid (fst e) \<and> utf8_valid (snd e)"
      using mapping_utf8_all by (simp add: s0_def list_all_iff)
    moreover have "\<forall>f \<in> set files. utf8_valid f"
      using valid by (simp add: list_all_iff)
    ultimately obtain s ls where s: "v3_loop R files s0 = Inr s"
      "logfile s = logfile s0 @ ls" "map line_file ls = map Some files"
      using v3_loop_complete [of s0 files R] by blast
    from v3_listed(4) [OF listed, of R] s show ?thesis
      by (simp add: s0_def)
  qed
  have 3: "status (v2 R fs) = Exit0" if "os_listdir fs = Inr files"
    by (simp add: v2_Some [OF that] status_def)
  have 4: "v3_loop R (fpre @ f # fpost) st =
        v3_loop R fpost (st1\<lparr>logfile := logfile st1 @ [ErrorRenaming f e]\<rparr>)"
    if t: "table st = mapping" and pre: "v3_loop R fpre st = Inr st1"
      and key: "map_of mapping f = Some b" and fails: "os_rename R (images st1) f b = Inl e"
  proof -
    have t1: "table st1 = mapping"
      using v3_loop_Inr_state(1) [OF pre] t by simp
    from key have "(f, b) \<in> set mapping" by (rule map_of_SomeD)
    then have "utf8_valid f" by (rule mapping_utf8(1))
    with key fails t1
    have "v3_body R f st1 = Inr (st1\<lparr>logfile := logfile st1 @ [ErrorRenaming f e]\<rparr>)"
      by (intro v3_body_error) simp_all
    with pre show ?thesis by (simp add: v3_loop_append)
  qed
  show ?thesis
    using 1 2 3 4 by (simp add: v2_body_def v1_status v3_status)
qed

text \<open>The theorem of C6 at a concrete directory, on the platform that refuses every rename.\<close>

theorem rename_failure_continues_witness:
  "os_path_exists (cat_only ''photo'') goyangi_jpg \<and>
   os_rename os_denied (cat_only ''photo'') goyangi_jpg ''cat-mascot.jpg'' =
     Inl (OSError ''[Errno 13] Permission denied'') \<and>
   map_of mapping goyangi_jpg = Some ''cat-mascot.jpg'' \<and>
   os_listdir (cat_only ''photo'') = Inr [goyangi_jpg] \<and>
   list_all utf8_valid [goyangi_jpg] \<and>
   fold (v1_body os_denied) [(goyangi_jpg, ''cat-mascot.jpg''), (''a.png'', ''b.png'')]
       ((start (cat_only ''photo''))\<lparr>table := mapping\<rparr>) =
     fold (v1_body os_denied) [(''a.png'', ''b.png'')]
       (print (ErrorRenaming goyangi_jpg (OSError ''[Errno 13] Permission denied''))
          ((start (cat_only ''photo''))\<lparr>table := mapping\<rparr>)) \<and>
   v3_loop os_denied [goyangi_jpg, ''a.png'']
       ((start (cat_only ''photo''))\<lparr>table := mapping\<rparr>) =
     v3_loop os_denied [''a.png'']
       ((start (cat_only ''photo''))\<lparr>table := mapping,
          logfile := [ErrorRenaming goyangi_jpg (OSError ''[Errno 13] Permission denied'')]\<rparr>) \<and>
   status (v2 os_denied (cat_only ''photo'')) = Exit0 \<and>
   map line_file (logfile (final (v3 os_denied (cat_only ''photo'')))) = [None, Some goyangi_jpg]"
proof -
  have h1: "os_path_exists (cat_only ''photo'') goyangi_jpg"
    by (simp add: os_path_exists_def lookup_cat_only)
  have h2: "os_rename os_denied (cat_only ''photo'') goyangi_jpg ''cat-mascot.jpg'' =
     Inl (OSError ''[Errno 13] Permission denied'')"
    by (simp add: cat_only_def os_denied_def)
  have h3: "map_of mapping goyangi_jpg = Some ''cat-mascot.jpg''"
    using wf_table_mapping goyangi_entry by (rule wf_table_map_of)
  have h4: "os_listdir (cat_only ''photo'') = Inr [goyangi_jpg]"
    by (simp add: cat_only_def)
  have h5: "list_all utf8_valid [goyangi_jpg]"
    using mapping_utf8(1) [OF goyangi_entry] by simp
  from rename_failure_continues
    [where R = os_denied and pre = "[]" and fpre = "[]"
       and st = "(start (cat_only ''photo''))\<lparr>table := mapping\<rparr>"
       and ?st1.0 = "(start (cat_only ''photo''))\<lparr>table := mapping\<rparr>"
       and a = goyangi_jpg and f = goyangi_jpg and b = "''cat-mascot.jpg''"
       and e = "OSError ''[Errno 13] Permission denied''"
       and post = "[(''a.png'', ''b.png'')]" and fpost = "[''a.png'']"
       and fs = "cat_only ''photo''" and files = "[goyangi_jpg]"]
    h1 h2 h3 h4 h5
  show ?thesis by simp
qed




text \<open>
  C8: on an empty base directory, \<^verbatim>\<open>rename_images.py\<close> prints ten
  \<^verbatim>\<open>File not found\<close> lines (one per table entry, and nothing else), v2 prints its
  listing line only, v3 logs its listing line and no \<^verbatim>\<open>Skipped\<close> line; each exits
  with status 0 and leaves the directory empty.
\<close>

theorem empty_directory:
  "v1 R (Some []) =
     (Exit0, \<lparr>images = Some [], console = map (\<lambda>e. FileNotFound (fst e)) mapping,
              logfile = [], table = mapping\<rparr>) \<and>
   length (filter is_not_found (console (final (v1 R (Some []))))) = 10 \<and>
   length (console (final (v1 R (Some [])))) = 10 \<and>
   v2 R (Some []) =
     (Exit0, \<lparr>images = Some [], console = [FilesIn []], logfile = [], table = mapping\<rparr>) \<and>
   v3 R (Some []) =
     (Exit0, \<lparr>images = Some [], console = [Done], logfile = [FilesFound []],
              table = mapping\<rparr>) \<and>
   length (filter is_skipped (logfile (final (v3 R (Some []))))) = 0"
proof -
  have 1: "v1 R (Some []) =
     (Exit0, \<lparr>images = Some [], console = map (\<lambda>e. FileNotFound (fst e)) mapping,
              logfile = [], table = mapping\<rparr>)"
    using v1_loop_absent [of mapping "(start (Some []))\<lparr>table := mapping\<rparr>" R]
    by (simp add: v1_def start_def comp_def)
  have 2: "v2 R (Some []) =
     (Exit0, \<lparr>images = Some [], console = [FilesIn []], logfile = [], table = mapping\<rparr>)"
    by (simp add: v2_def start_def print_def)
  have 3: "v3 R (Some []) =
     (Exit0, \<lparr>images = Some [], console = [Done], logfile = [FilesFound []],
              table = mapping\<rparr>)"
    by (rule empty_runs(2))
  have 4: "filter is_not_found (map (\<lambda>e. FileNotFound (fst e)) es) = map (\<lambda>e. FileNotFound (fst e)) es"
    for es :: "(filename \<times> filename) list"
    by (induction es) simp_all
  show ?thesis
    unfolding 1 2 3 by (simp add: final_def 4 length_mapping)
qed

text \<open>
  C9: the table has exactly ten entries, its destination names are pairwise distinct and
  ASCII-safe (each byte below 128; more, each name is a slug), and the pass never changes
  it: each loop leaves the variable
  \<^verbatim>\<open>mapping\<close> as it found it, from any state (in v3 whether the loop completes or
  is abandoned), and at the end of a run it holds the
  literal (in v2 the literal is assigned after the listing, so it is unassigned when the
  listing raised).
\<close>

theorem mapping_table:
  "length mapping = 10 \<and> distinct (map snd mapping) \<and> list_all ascii_safe (map snd mapping) \<and>
   list_all slug (map snd mapping) \<and>
   table (fold (v1_body R) es st) = table st \<and>
   table (fold (v2_body R) fl st) = table st \<and>
   table (state_of (v3_loop R fl st)) = table st \<and>
   table (final (v1 R fs)) = mapping \<and>
   table (final (v2 R fs)) = (case os_listdir fs of Inl e \<Rightarrow> [] | Inr files \<Rightarrow> mapping) \<and>
   table (final (v3 R fs)) = mapping"
proof -
  have "distinct (map snd mapping)"
    using wf_table_mapping by (simp add: wf_table_def)
  moreover have "list_all ascii_safe (map snd mapping)"
    by (simp add: mapping_def ascii_safe_def)
  moreover have "list_all slug (map snd mapping)"
    by (simp add: mapping_def slug_def)
  moreover have "table (final (v1 R fs)) = mapping"
    by (simp add: v1_final)
  moreover have "table (final (v2 R fs)) = (case os_listdir fs of Inl e \<Rightarrow> [] | Inr files \<Rightarrow> mapping)"
    by (cases fs rule: os_listdir_cases) (simp_all add: v2_None v2_Some final_def)
  moreover have "table (final (v3 R fs)) = mapping"
  proof (cases fs rule: os_listdir_cases)
    case absent
    then show ?thesis by (simp add: v3_absent final_def)
  next
    case (listed files)
    then show ?thesis by (rule v3_listed(2))
  qed
  ultimately show ?thesis
    by (simp add: length_mapping)
qed

text \<open>
  C10, as the code has it. A name that is not a key of the table, and that is not the
  destination name of an entry whose source is in the directory, holds after the run what
  it held before, in all three scripts; and the loose-match branch of v2 changes nothing.
\<close>

theorem other_files_untouched:
  assumes "map_of mapping x = None" "\<And>a. (a, x) \<in> set mapping \<Longrightarrow> lookup fs a = None"
  shows "dir_after (v1 R fs) x = lookup fs x \<and> dir_after (v2 R fs) x = lookup fs x \<and>
         dir_after (v3 R fs) x = lookup fs x \<and> loose_match f st = st"
  using untouched_names [OF assms, of R] by (simp add: loose_match_id)

text \<open>
  C10 as stated fails for a file that sits under a destination name:
  \<^verbatim>\<open>cat-mascot.jpg\<close> is not a key of the table, yet where the platform's rename
  replaces an existing destination, its contents are replaced by the picture's.
\<close>

theorem destination_overwritten:
  "map_of mapping ''cat-mascot.jpg'' = None \<and>
   lookup cat_twice ''cat-mascot.jpg'' = Some ''old'' \<and>
   dir_after (v1 os_posix cat_twice) ''cat-mascot.jpg'' = Some ''new'' \<and>
   dir_after (v2 os_posix cat_twice) ''cat-mascot.jpg'' = Some ''new'' \<and>
   dir_after (v3 os_posix cat_twice) ''cat-mascot.jpg'' = Some ''new''"
proof -
  have "map_of mapping ''cat-mascot.jpg'' = None"
    by (simp add: mapping_def)
  moreover have "lookup cat_twice ''cat-mascot.jpg'' = Some ''old''"
    by (simp add: cat_twice_def goyangi_jpg_def)
  ultimately show ?thesis
    by (simp add: cat_twice_runs)
qed

text \<open>The theorem of C10 at a concrete directory.\<close>

theorem other_files_untouched_witness:
  "map_of mapping ''cat-mascot.jpg'' = None \<and>
   lookup (cat_renamed ''old'') goyangi_jpg = None \<and>
   lookup (cat_renamed ''old'') ''cat-mascot.jpg'' = Some ''old'' \<and>
   dir_after (v1 os_posix (cat_renamed ''old'')) ''cat-mascot.jpg'' = Some ''old'' \<and>
   dir_after (v2 os_posix (cat_renamed ''old'')) ''cat-mascot.jpg'' = Some ''old'' \<and>
   dir_after (v3 os_posix (cat_renamed ''old'')) ''cat-mascot.jpg'' = Some ''old''"
proof -
  have "lookup (cat_renamed ''old'') a = None" if "(a, ''cat-mascot.jpg'') \<in> set mapping" for a
    using cat_source [OF that] by (simp add: lookup_cat_renamed)
  from other_files_untouched [of "''cat-mascot.jpg''" "cat_renamed ''old''" os_posix,
      OF cat_not_key this]
  show ?thesis by (simp add: cat_not_key lookup_cat_renamed)
qed

end
